theory Spec2Isabelle
  imports Complex_Main
begin

section \<open>Predictive maintenance service (service.py)\<close>

text \<open>
  The theory embeds \<^verbatim>\<open>PredictiveMaintenanceService\<close> of \<^verbatim>\<open>service.py\<close>: the polling
  loop \<^verbatim>\<open>run\<close>, the store \<^verbatim>\<open>store_data\<close>, the two alert checks and the status writer.

  Modelling decisions.
  \<^item> A reading is the dictionary the simulator answers with, typed as \<^verbatim>\<open>simulator.py\<close>
    builds it: two strings for the states, a string time stamp, numbers for the
    temperatures and the progress. Python floats are modelled as reals, so NaN, the
    infinities and rounding are outside the model.
  \<^item> The isolation forest is a library object. Its two operations are parameters of
    the model: \<open>fit\<close> maps the training sample to a fitted forest (the seed is the
    constant 42, so fitting is a function of the sample), \<open>predict\<close> maps a fitted
    forest and a value to the vote, \<open>1\<close> or \<open>-1\<close>. Every theorem holds for all of them.
  \<^item> The world outside the process enters each cycle as a \<open>cycle_input\<close>: what the HTTP
    request did, whether the database accepted the row, and the clock.
  \<^item> Exceptions are values of type \<open>error\<close>. Python keeps every mutation made before an
    exception is raised, so a failing operation returns the state it reached together
    with the error.
  \<^item> The state holds the three attributes of the service that the loop mutates, the
    table \<^verbatim>\<open>sensor_data\<close>, the content of \<^verbatim>\<open>status.json\<close> and the payloads written to
    \<^verbatim>\<open>alerts.log\<close>. Console output and the five second sleep are not modelled, and
    writing the status file and the log is taken to succeed.
\<close>

subsection \<open>Data\<close>

record reading =
  timestamp :: string
  nozzle_temp :: real
  bed_temp :: real
  printer_status :: string
  filament_status :: string
  print_progress :: real

record snapshot =
  current_data :: reading
  active_alerts :: "string list"
  last_updated :: string
  system_status :: string

datatype log_level = LogError | LogWarning

datatype error = StoreError | DecodeError | NotFittedError

record 'm service =
  temp_buffer :: "real list"
  isolation_forest :: "'m option"
  model_trained :: bool
  sensor_data :: "reading list"
  status_file :: "snapshot option"
  alerts_log :: "(log_level \<times> string) list"

text \<open>
  What \<^verbatim>\<open>requests.get\<close>, \<^verbatim>\<open>raise_for_status\<close> and \<^verbatim>\<open>response.json()\<close> do in one cycle:
  raise a \<^verbatim>\<open>RequestException\<close> (time-out, refused connection, HTTP error status), raise
  another exception (a body that is not JSON, with a \<^verbatim>\<open>requests\<close> whose decoding error
  is a plain \<^verbatim>\<open>ValueError\<close>), or return the decoded body, \<open>None\<close> for the JSON
  value \<^verbatim>\<open>null\<close>.
\<close>

datatype response = RequestException | OtherException | Json "reading option"

record cycle_input =
  response :: response
  db_ok :: bool
  now :: string


subsection \<open>Strings\<close>

text \<open>Python's \<^verbatim>\<open>p in s\<close> on strings: \<open>p\<close> occurs in \<open>s\<close> as a contiguous block.\<close>

fun str_contains :: "string \<Rightarrow> string \<Rightarrow> bool" where
  "str_contains p [] = (p = [])"
| "str_contains p (c # cs) = (take (length p) (c # cs) = p \<or> str_contains p cs)"

definition digit_char :: "nat \<Rightarrow> char" where
  "digit_char d = ''0123456789'' ! d"

fun str_nat :: "nat \<Rightarrow> string" where
  "str_nat n = (if n < 10 then [digit_char n] else str_nat (n div 10) @ [digit_char (n mod 10)])"

declare str_nat.simps [simp del]

definition round_half_even :: "real \<Rightarrow> int" where
  "round_half_even x =
     (let f = \<lfloor>x\<rfloor>; d = x - of_int f
      in if d < 1 / 2 then f else if 1 / 2 < d then f + 1 else if even f then f else f + 1)"

text \<open>
  The format \<^verbatim>\<open>{x:.1f}\<close>: the sign, the integer part and one decimal, of the value
  rounded to the nearest tenth, a tie going to the even tenth.
\<close>

definition fmt_1f :: "real \<Rightarrow> string" where
  "fmt_1f x =
     (let n = nat (round_half_even (\<bar>x\<bar> * 10))
      in (if x < 0 then ''-'' else '''') @ str_nat (n div 10) @ ''.'' @ str_nat (n mod 10))"

text \<open>The degree sign is the code point 176, one character of a Python string.\<close>

definition degree :: char where
  "degree = CHR 0xB0"

subsection \<open>The alert texts and log payloads\<close>

definition hard_failure_alert :: "reading \<Rightarrow> string" where
  "hard_failure_alert data = ''Hard Failure Alert: Printer in error state at '' @ timestamp data"

definition filament_jam_alert :: "reading \<Rightarrow> string" where
  "filament_jam_alert data = ''Filament Jam Alert: Filament is jammed at '' @ timestamp data"

definition predictive_alert :: "reading \<Rightarrow> string" where
  "predictive_alert data =
     ''Predictive Alert: Potential Overheating Detected! Temp: '' @ fmt_1f (nozzle_temp data)
       @ [degree] @ ''C at '' @ timestamp data"

definition hard_failure_log :: "reading \<Rightarrow> log_level \<times> string" where
  "hard_failure_log data =
     (LogError, ''HARD_FAILURE|'' @ timestamp data @ ''|'' @ printer_status data
        @ ''|Printer error state'')"

definition filament_jam_log :: "reading \<Rightarrow> log_level \<times> string" where
  "filament_jam_log data =
     (LogWarning, ''FILAMENT_JAM|'' @ timestamp data @ ''|'' @ filament_status data
        @ ''|Filament blockage'')"

definition predictive_log :: "reading \<Rightarrow> log_level \<times> string" where
  "predictive_log data =
     (LogWarning, ''PREDICTIVE_ALERT|'' @ timestamp data @ ''|'' @ fmt_1f (nozzle_temp data)
        @ ''|Overheating detected'')"

subsection \<open>The service\<close>

text \<open>
  \<^verbatim>\<open>__init__\<close>: an empty buffer of capacity 50, an unfitted forest, the flag down. The
  table, the status file and the log are files; they start as the disk has them.
\<close>

definition init_service ::
  "reading list \<Rightarrow> snapshot option \<Rightarrow> (log_level \<times> string) list \<Rightarrow> 'm service" where
  "init_service db sf lg =
     \<lparr>temp_buffer = [], isolation_forest = None, model_trained = False,
      sensor_data = db, status_file = sf, alerts_log = lg\<rparr>"

text \<open>
  \<^verbatim>\<open>deque.append\<close> with \<^verbatim>\<open>maxlen\<close>: the item goes to the right end, and when the deque
  has become longer than \<^verbatim>\<open>maxlen\<close> the leftmost item is dropped.
\<close>

definition deque_append :: "nat \<Rightarrow> 'a \<Rightarrow> 'a list \<Rightarrow> 'a list" where
  "deque_append maxlen x d = (let d' = d @ [x] in if maxlen < length d' then tl d' else d')"

definition poll_simulator :: "response \<Rightarrow> error + reading option" where
  "poll_simulator r =
     (case r of
        RequestException \<Rightarrow> Inr None
      | OtherException \<Rightarrow> Inl DecodeError
      | Json body \<Rightarrow> Inr body)"

text \<open>
  \<^verbatim>\<open>store_data\<close>: one row is inserted and committed. When sqlite raises, nothing has
  been committed.
\<close>

definition store_data :: "bool \<Rightarrow> reading \<Rightarrow> 'm service \<Rightarrow> error + 'm service" where
  "store_data ok data s =
     (if ok then Inr (s\<lparr>sensor_data := sensor_data s @ [data]\<rparr>) else Inl StoreError)"

definition check_immediate_failures :: "reading \<Rightarrow> 'm service \<Rightarrow> string list \<times> 'm service" where
  "check_immediate_failures data s =
     (let alerts = [];
          (alerts, s) =
            (if printer_status data = ''error''
             then (alerts @ [hard_failure_alert data],
                   s\<lparr>alerts_log := alerts_log s @ [hard_failure_log data]\<rparr>)
             else (alerts, s));
          (alerts, s) =
            (if filament_status data = ''jammed''
             then (alerts @ [filament_jam_alert data],
                   s\<lparr>alerts_log := alerts_log s @ [filament_jam_log data]\<rparr>)
             else (alerts, s))
      in (alerts, s))"

text \<open>The guard of the training branch: the flag is down and the buffer holds 30 values.\<close>

definition needs_training :: "'m service \<Rightarrow> bool" where
  "needs_training s \<longleftrightarrow> \<not> model_trained s \<and> 30 \<le> length (temp_buffer s)"

definition check_predictive_anomalies ::
  "(real list \<Rightarrow> 'm) \<Rightarrow> ('m \<Rightarrow> real \<Rightarrow> int) \<Rightarrow> reading \<Rightarrow> 'm service
     \<Rightarrow> 'm service \<times> (error + string list)" where
  "check_predictive_anomalies fit predict data s =
     (let alerts = [];
          s = s\<lparr>temp_buffer := deque_append 50 (nozzle_temp data) (temp_buffer s)\<rparr>
      in if length (temp_buffer s) < 20 then (s, Inr alerts)
         else
           let s = (if needs_training s
                    then s\<lparr>isolation_forest := Some (fit (take 30 (temp_buffer s))),
                           model_trained := True\<rparr>
                    else s)
           in if model_trained s
              then (case isolation_forest s of
                      None \<Rightarrow> (s, Inl NotFittedError)
                    | Some forest \<Rightarrow>
                        let prediction = predict forest (nozzle_temp data);
                            temp_threshold_exceeded = (225 < nozzle_temp data)
                        in if prediction = - 1 \<or> temp_threshold_exceeded
                           then (s\<lparr>alerts_log := alerts_log s @ [predictive_log data]\<rparr>,
                                 Inr (alerts @ [predictive_alert data]))
                           else (s, Inr alerts))
              else (s, Inr alerts))"

definition aggregate_status :: "string list \<Rightarrow> string" where
  "aggregate_status alerts =
     (if list_ex (str_contains ''Hard Failure'') alerts then ''error''
      else if alerts \<noteq> [] then ''warning'' else ''normal'')"

definition update_status_file :: "string \<Rightarrow> reading \<Rightarrow> string list \<Rightarrow> 'm service \<Rightarrow> 'm service" where
  "update_status_file clock data alerts s =
     s\<lparr>status_file :=
         Some \<lparr>current_data = data, active_alerts = alerts, last_updated = clock,
               system_status = aggregate_status alerts\<rparr>\<rparr>"



text \<open>
  One turn of the loop of \<^verbatim>\<open>run\<close>. The second component is the exception that the
  handler \<^verbatim>\<open>except Exception\<close> caught, if any; the loop then sleeps and goes on.
\<close>

definition run_body ::
  "(real list \<Rightarrow> 'm) \<Rightarrow> ('m \<Rightarrow> real \<Rightarrow> int) \<Rightarrow> cycle_input \<Rightarrow> 'm service
     \<Rightarrow> 'm service \<times> error option" where
  "run_body fit predict inp s =
     (case poll_simulator (response inp) of
        Inl e \<Rightarrow> (s, Some e)
      | Inr None \<Rightarrow> (s, None)
      | Inr (Some data) \<Rightarrow>
          (case store_data (db_ok inp) data s of
             Inl e \<Rightarrow> (s, Some e)
           | Inr s \<Rightarrow>
               let (immediate_alerts, s) = check_immediate_failures data s
               in (case check_predictive_anomalies fit predict data s of
                     (s, Inl e) \<Rightarrow> (s, Some e)
                   | (s, Inr predictive_alerts) \<Rightarrow>
                       let all_alerts = immediate_alerts @ predictive_alerts
                       in (update_status_file (now inp) data all_alerts s, None))))"

text \<open>
  The loop never ends by itself; \<open>run\<close> is its effect over the first cycles, one input
  for each.
\<close>

fun run ::
  "(real list \<Rightarrow> 'm) \<Rightarrow> ('m \<Rightarrow> real \<Rightarrow> int) \<Rightarrow> cycle_input list \<Rightarrow> 'm service \<Rightarrow> 'm service" where
  "run fit predict [] s = s"
| "run fit predict (inp # inps) s = run fit predict inps (fst (run_body fit predict inp s))"

text \<open>Feeding a sequence of readings to the anomaly check, one call for each.\<close>

fun feed ::
  "(real list \<Rightarrow> 'm) \<Rightarrow> ('m \<Rightarrow> real \<Rightarrow> int) \<Rightarrow> reading list \<Rightarrow> 'm service \<Rightarrow> 'm service" where
  "feed fit predict [] s = s"
| "feed fit predict (d # ds) s =
     feed fit predict ds (fst (check_predictive_anomalies fit predict d s))"

subsection \<open>Auxiliary notions\<close>


text \<open>A raised flag comes with a fitted forest; every state the loop reaches is so.\<close>

definition fitted_when_trained :: "'m service \<Rightarrow> bool" where
  "fitted_when_trained s \<longleftrightarrow> (model_trained s \<longrightarrow> isolation_forest s \<noteq> None)"

text \<open>The alerts \<^verbatim>\<open>check_immediate_failures\<close> returns, as a function of the reading.\<close>

definition immediate_alerts :: "reading \<Rightarrow> string list" where
  "immediate_alerts data =
     (if printer_status data = ''error'' then [hard_failure_alert data] else [])
       @ (if filament_status data = ''jammed'' then [filament_jam_alert data] else [])"

text \<open>
  The state in which the anomaly check of a cycle runs: the row is stored and the
  immediate failures are logged.
\<close>

definition stored :: "reading \<Rightarrow> 'm service \<Rightarrow> 'm service" where
  "stored data s = snd (check_immediate_failures data (s\<lparr>sensor_data := sensor_data s @ [data]\<rparr>))"

text \<open>
  The readings the loop hands to the anomaly check: those of the cycles whose request and
  whose insert succeed.
\<close>

fun accepted :: "cycle_input list \<Rightarrow> reading list" where
  "accepted [] = []"
| "accepted (inp # inps) =
     (case response inp of
        Json (Some data) \<Rightarrow> if db_ok inp then data # accepted inps else accepted inps
      | _ \<Rightarrow> accepted inps)"

text \<open>Two states with the same anomaly model.\<close>

definition same_model :: "'m service \<Rightarrow> 'm service \<Rightarrow> bool" where
  "same_model s t \<longleftrightarrow>
     temp_buffer s = temp_buffer t \<and> model_trained s = model_trained t
       \<and> isolation_forest s = isolation_forest t"

subsection \<open>Concrete inputs\<close>

text \<open>A forest that carries nothing and votes inlier on every value.\<close>

definition unit_fit :: "real list \<Rightarrow> unit" where
  "unit_fit xs = ()"

definition vote_inlier :: "unit \<Rightarrow> real \<Rightarrow> int" where
  "vote_inlier forest x = 1"

definition sample :: "real \<Rightarrow> reading" where
  "sample t =
     \<lparr>timestamp = ''2025-01-01T00:00:00'', nozzle_temp = t, bed_temp = 60,
      printer_status = ''printing'', filament_status = ''ok'', print_progress = 45\<rparr>"

text \<open>One cycle whose request and whose insert succeed, and one whose insert fails.\<close>

definition ok_cycle :: "reading \<Rightarrow> cycle_input" where
  "ok_cycle data = \<lparr>response = Json (Some data), db_ok = True, now = ''2025-01-01T00:00:01''\<rparr>"

definition db_down_cycle :: "reading \<Rightarrow> cycle_input" where
  "db_down_cycle data = \<lparr>response = Json (Some data), db_ok = False, now = ''2025-01-01T00:00:01''\<rparr>"

definition timeout_cycle :: cycle_input where
  "timeout_cycle = \<lparr>response = RequestException, db_ok = True, now = ''2025-01-01T00:00:01''\<rparr>"

text \<open>The readings of the scenarios: a jam while printing, and the simulator's error state.\<close>

definition jam_reading :: reading where
  "jam_reading =
     \<lparr>timestamp = ''2025-01-01T00:00:00'', nozzle_temp = 210.5, bed_temp = 60.1,
      printer_status = ''printing'', filament_status = ''jammed'', print_progress = 45.2\<rparr>"

definition error_reading :: reading where
  "error_reading =
     \<lparr>timestamp = ''2025-01-01T00:00:00'', nozzle_temp = 230, bed_temp = 60.1,
      printer_status = ''error'', filament_status = ''jammed'', print_progress = 45.2\<rparr>"


section \<open>Properties\<close>

subsection \<open>The buffer and the anomaly check\<close>

lemma length_deque_append:
  "length d \<le> n \<Longrightarrow> length (deque_append n x d) \<le> n"
  by (auto simp: deque_append_def Let_def)

lemma last_deque_append: "0 < n \<Longrightarrow> last (deque_append n x d) = x"
  by (cases d) (auto simp: deque_append_def Let_def)

lemma temp_buffer_check_predictive:
  "temp_buffer (fst (check_predictive_anomalies fit predict data s)) =
     deque_append 50 (nozzle_temp data) (temp_buffer s)"
  by (simp add: check_predictive_anomalies_def Let_def split: option.split)

lemma feed_snoc:
  "feed fit predict (ds @ [d]) s =
     fst (check_predictive_anomalies fit predict d (feed fit predict ds s))"
  by (induction ds arbitrary: s) simp_all

lemma drop_window_snoc:
  "deque_append 50 v (drop (length vs - 50) vs) = drop (length (vs @ [v]) - 50) (vs @ [v])"
proof (cases "length vs < 50")
  case True
  then show ?thesis by (simp add: deque_append_def Let_def)
next
  case False
  then have n: "50 \<le> length vs" by simp
  then have "length (drop (length vs - 50) vs) = 50" by simp
  then have "deque_append 50 v (drop (length vs - 50) vs) = tl (drop (length vs - 50) vs @ [v])"
    by (simp add: deque_append_def Let_def)
  also have "\<dots> = drop (Suc (length vs - 50)) (vs @ [v])"
    using n by (simp add: drop_Suc tl_drop)
  also have "Suc (length vs - 50) = length (vs @ [v]) - 50"
    using n by simp
  finally show ?thesis .
qed

lemma feed_init:
  fixes ds :: "reading list"
  defines "vs \<equiv> map nozzle_temp ds"
  shows "temp_buffer (feed fit predict ds (init_service db sf lg)) = drop (length vs - 50) vs
       \<and> model_trained (feed fit predict ds (init_service db sf lg)) = (30 \<le> length ds)
       \<and> isolation_forest (feed fit predict ds (init_service db sf lg)) =
           (if 30 \<le> length ds then Some (fit (take 30 vs)) else None)"
  unfolding vs_def
proof (induction ds rule: rev_induct)
  case Nil
  show ?case by (simp add: init_service_def)
next
  case (snoc d ds)
  let ?s = "feed fit predict ds (init_service db sf lg)"
  let ?vs = "map nozzle_temp ds"
  let ?b = "deque_append 50 (nozzle_temp d) (temp_buffer ?s)"
  have b: "?b = drop (length (?vs @ [nozzle_temp d]) - 50) (?vs @ [nozzle_temp d])"
    using snoc drop_window_snoc [of "nozzle_temp d" ?vs] by simp
  have lb: "length ?b = min (Suc (length ds)) 50"
    unfolding b by simp
  have tk: "length ds = 29 \<Longrightarrow> take 30 ?b = ?vs @ [nozzle_temp d]"
    unfolding b by simp
  have tk': "30 \<le> length ds \<Longrightarrow> take 30 (?vs @ [nozzle_temp d]) = take 30 ?vs"
    by simp
  have tr: "model_trained ?s = (30 \<le> length ds)" using snoc by simp
  have fo: "isolation_forest ?s = (if 30 \<le> length ds then Some (fit (take 30 ?vs)) else None)"
    using snoc by simp
  show ?case
  proof (cases "length ds < 29")
    case True
    then show ?thesis
      using b lb tr fo
      by (auto simp: feed_snoc check_predictive_anomalies_def Let_def needs_training_def)
  next
    case False
    note ge = this
    show ?thesis
    proof (cases "length ds = 29")
      case True
      then show ?thesis
        using b lb tr fo tk
        by (auto simp: feed_snoc check_predictive_anomalies_def Let_def needs_training_def)
    next
      case False
      with ge have "30 \<le> length ds" by simp
      then show ?thesis
        using b lb tr fo tk'
        by (auto simp: feed_snoc check_predictive_anomalies_def Let_def needs_training_def)
    qed
  qed
qed



lemma length_buffer_feed_init:
  "length (temp_buffer (feed fit predict ds (init_service db sf lg))) = min (length ds) 50"
  using feed_init [of fit predict ds db sf lg] by simp


lemma length_append_feed_init:
  "length (deque_append 50 v (temp_buffer (feed fit predict ds (init_service db sf lg))))
     = min (Suc (length ds)) 50"
  using length_buffer_feed_init [of fit predict ds db sf lg]
  by (auto simp: deque_append_def Let_def)



subsection \<open>One cycle of the loop\<close>

lemma fst_check_immediate_failures:
  "fst (check_immediate_failures data s) = immediate_alerts data"
  by (simp add: check_immediate_failures_def immediate_alerts_def Let_def)

lemma snd_check_immediate_failures:
  "temp_buffer (snd (check_immediate_failures data s)) = temp_buffer s"
  "isolation_forest (snd (check_immediate_failures data s)) = isolation_forest s"
  "model_trained (snd (check_immediate_failures data s)) = model_trained s"
  "sensor_data (snd (check_immediate_failures data s)) = sensor_data s"
  "status_file (snd (check_immediate_failures data s)) = status_file s"
  by (simp_all add: check_immediate_failures_def Let_def)

lemma check_predictive_frame:
  "sensor_data (fst (check_predictive_anomalies fit predict data s)) = sensor_data s"
  "status_file (fst (check_predictive_anomalies fit predict data s)) = status_file s"
  by (simp_all add: check_predictive_anomalies_def Let_def split: option.split)

lemma check_predictive_result:
  assumes "fitted_when_trained s"
  shows "snd (check_predictive_anomalies fit predict data s) = Inr []
       \<or> snd (check_predictive_anomalies fit predict data s) = Inr [predictive_alert data]"
  using assms
  by (auto simp: check_predictive_anomalies_def fitted_when_trained_def needs_training_def Let_def
           split: option.split)

lemma fitted_check_predictive:
  "fitted_when_trained s \<Longrightarrow> fitted_when_trained (fst (check_predictive_anomalies fit predict data s))"
  by (auto simp: check_predictive_anomalies_def fitted_when_trained_def needs_training_def Let_def
           split: option.split)

lemma stored_fields:
  "temp_buffer (stored data s) = temp_buffer s"
  "isolation_forest (stored data s) = isolation_forest s"
  "model_trained (stored data s) = model_trained s"
  "sensor_data (stored data s) = sensor_data s @ [data]"
  "status_file (stored data s) = status_file s"
  by (simp_all add: stored_def snd_check_immediate_failures)

lemma run_body_success:
  assumes "response inp = Json (Some data)" and "db_ok inp"
  shows "run_body fit predict inp s =
     (case check_predictive_anomalies fit predict data (stored data s) of
        (s', Inl e) \<Rightarrow> (s', Some e)
      | (s', Inr predictive_alerts) \<Rightarrow>
          (update_status_file (now inp) data (immediate_alerts data @ predictive_alerts) s', None))"
  using assms
  by (simp add: run_body_def poll_simulator_def store_data_def stored_def Let_def
        fst_check_immediate_failures split_beta split: sum.split)

lemma run_body_fields:
  assumes "response inp = Json (Some data)" and "db_ok inp"
  shows "temp_buffer (fst (run_body fit predict inp s))
           = deque_append 50 (nozzle_temp data) (temp_buffer s)"
    and "sensor_data (fst (run_body fit predict inp s)) = sensor_data s @ [data]"
    and "fitted_when_trained s \<Longrightarrow> fitted_when_trained (fst (run_body fit predict inp s))"
proof -
  let ?c = "check_predictive_anomalies fit predict data (stored data s)"
  have rb: "fst (run_body fit predict inp s) =
      (case snd ?c of Inl e \<Rightarrow> fst ?c
       | Inr pa \<Rightarrow> update_status_file (now inp) data (immediate_alerts data @ pa) (fst ?c))"
    unfolding run_body_success [OF assms] by (simp add: split_beta split: sum.split)
  show "temp_buffer (fst (run_body fit predict inp s))
           = deque_append 50 (nozzle_temp data) (temp_buffer s)"
    unfolding rb
    by (simp add: update_status_file_def temp_buffer_check_predictive stored_fields split: sum.split)
  show "sensor_data (fst (run_body fit predict inp s)) = sensor_data s @ [data]"
    unfolding rb
    by (simp add: update_status_file_def check_predictive_frame stored_fields split: sum.split)
  assume "fitted_when_trained s"
  then have "fitted_when_trained (stored data s)"
    by (simp add: fitted_when_trained_def stored_fields)
  then have "fitted_when_trained (fst ?c)" by (rule fitted_check_predictive)
  then show "fitted_when_trained (fst (run_body fit predict inp s))"
    unfolding rb by (simp add: update_status_file_def fitted_when_trained_def split: sum.split)
qed

lemma run_body_skip:
  assumes "response inp = RequestException \<or> response inp = OtherException
           \<or> response inp = Json None \<or> \<not> db_ok inp"
  shows "fst (run_body fit predict inp s) = s"
  using assms
  by (auto simp: run_body_def poll_simulator_def store_data_def
           split: response.split option.split)

lemma run_body_cases:
  "fst (run_body fit predict inp s) = s \<or> (\<exists>data. response inp = Json (Some data) \<and> db_ok inp)"
proof (cases "response inp")
  case (Json body)
  then show ?thesis
    by (cases body; cases "db_ok inp") (simp_all add: run_body_skip)
qed (simp_all add: run_body_skip)

lemma fitted_run_body:
  "fitted_when_trained s \<Longrightarrow> fitted_when_trained (fst (run_body fit predict inp s))"
  using run_body_cases [of fit predict inp s] run_body_fields(3) [of inp _ s fit predict]
  by auto

lemma fitted_run:
  "fitted_when_trained s \<Longrightarrow> fitted_when_trained (run fit predict inps s)"
  by (induction inps arbitrary: s) (simp_all add: fitted_run_body)

lemma fitted_init: "fitted_when_trained (init_service db sf lg)"
  by (simp add: fitted_when_trained_def init_service_def)

lemma length_buffer_run_body:
  "length (temp_buffer s) \<le> 50 \<Longrightarrow> length (temp_buffer (fst (run_body fit predict inp s))) \<le> 50"
  using run_body_cases [of fit predict inp s] run_body_fields(1) [of inp _ fit predict s]
  by (auto simp: length_deque_append)

lemma length_buffer_run:
  "length (temp_buffer s) \<le> 50 \<Longrightarrow> length (temp_buffer (run fit predict inps s)) \<le> 50"
  by (induction inps arbitrary: s) (simp_all add: length_buffer_run_body)

lemma run_body_publishes:
  assumes "response inp = Json (Some data)" and "db_ok inp" and "fitted_when_trained s"
  shows "\<exists>pa. (pa = [] \<or> pa = [predictive_alert data])
     \<and> status_file (fst (run_body fit predict inp s)) =
         Some \<lparr>current_data = data, active_alerts = immediate_alerts data @ pa,
               last_updated = now inp,
               system_status = aggregate_status (immediate_alerts data @ pa)\<rparr>"
proof -
  let ?c = "check_predictive_anomalies fit predict data (stored data s)"
  have "fitted_when_trained (stored data s)"
    using assms(3) by (simp add: fitted_when_trained_def stored_fields)
  then obtain pa where pa: "pa = [] \<or> pa = [predictive_alert data]" and c: "snd ?c = Inr pa"
    using check_predictive_result [of "stored data s" fit predict data] by blast
  have "run_body fit predict inp s
          = (update_status_file (now inp) data (immediate_alerts data @ pa) (fst ?c), None)"
    unfolding run_body_success [OF assms(1,2)] using c by (simp add: split_beta)
  then have "status_file (fst (run_body fit predict inp s)) =
         Some \<lparr>current_data = data, active_alerts = immediate_alerts data @ pa,
               last_updated = now inp,
               system_status = aggregate_status (immediate_alerts data @ pa)\<rparr>"
    by (simp add: update_status_file_def)
  with pa show ?thesis by blast
qed

subsection \<open>The loop and the sequence of observed readings\<close>

lemma same_model_refl: "same_model s s"
  by (simp add: same_model_def)

lemma same_model_check_predictive:
  assumes "same_model s t"
  shows "same_model (fst (check_predictive_anomalies fit predict data s))
                    (fst (check_predictive_anomalies fit predict data t))"
    and "snd (check_predictive_anomalies fit predict data s)
           = snd (check_predictive_anomalies fit predict data t)"
  using assms
  by (auto simp: same_model_def check_predictive_anomalies_def needs_training_def Let_def
           split: option.split)

lemma same_model_stored: "same_model (stored data s) s"
  by (simp add: same_model_def stored_fields)

lemma same_model_trans: "same_model s t \<Longrightarrow> same_model t u \<Longrightarrow> same_model s u"
  by (simp add: same_model_def)

lemma same_model_run_body:
  assumes "response inp = Json (Some data)" and "db_ok inp"
  shows "same_model (fst (run_body fit predict inp s))
                    (fst (check_predictive_anomalies fit predict data s))"
proof -
  let ?c = "check_predictive_anomalies fit predict data (stored data s)"
  have "fst (run_body fit predict inp s) =
      (case snd ?c of Inl e \<Rightarrow> fst ?c
       | Inr pa \<Rightarrow> update_status_file (now inp) data (immediate_alerts data @ pa) (fst ?c))"
    unfolding run_body_success [OF assms] by (simp add: split_beta split: sum.split)
  then have "same_model (fst (run_body fit predict inp s)) (fst ?c)"
    by (simp add: same_model_def update_status_file_def split: sum.split)
  moreover have "same_model (fst ?c) (fst (check_predictive_anomalies fit predict data s))"
    by (rule same_model_check_predictive) (rule same_model_stored)
  ultimately show ?thesis by (rule same_model_trans)
qed

lemma same_model_run:
  "same_model s t \<Longrightarrow> same_model (run fit predict inps s) (feed fit predict (accepted inps) t)"
proof (induction inps arbitrary: s t)
  case Nil
  then show ?case by simp
next
  case (Cons inp inps)
  show ?case
  proof (cases "\<exists>data. response inp = Json (Some data) \<and> db_ok inp")
    case True
    then obtain data where d: "response inp = Json (Some data)" "db_ok inp" by blast
    have "same_model (fst (run_body fit predict inp s))
            (fst (check_predictive_anomalies fit predict data t))"
      using same_model_run_body [OF d, of fit predict s]
        same_model_check_predictive(1) [OF Cons.prems, of fit predict data]
      by (rule same_model_trans)
    then show ?thesis
      using d Cons.IH by simp
  next
    case False
    then have "fst (run_body fit predict inp s) = s"
      using run_body_cases [of fit predict inp s] by blast
    moreover have "accepted (inp # inps) = accepted inps"
      using False by (auto split: response.split option.split)
    ultimately show ?thesis
      using Cons.IH [OF Cons.prems] by simp
  qed
qed

lemma run_init:
  "same_model (run fit predict inps (init_service db sf lg))
              (feed fit predict (accepted inps) (init_service db sf lg))"
  by (rule same_model_run) (rule same_model_refl)



lemma accepted_replicate_ok: "accepted (replicate n (ok_cycle data)) = replicate n data"
  by (induction n) (simp_all add: ok_cycle_def)

lemma run_body_alerts:
  assumes "response inp = Json (Some data)" and "db_ok inp"
    and "snd (check_predictive_anomalies fit predict data
                (feed fit predict (accepted inps) (init_service db sf lg))) = Inr pa"
  shows "map_option active_alerts (status_file (fst (run_body fit predict inp
            (run fit predict inps (init_service db sf lg)))))
         = Some (immediate_alerts data @ pa)"
proof -
  let ?s = "run fit predict inps (init_service db sf lg)"
  have "same_model (stored data ?s) (feed fit predict (accepted inps) (init_service db sf lg))"
    using same_model_stored [of data ?s] same_model_run [OF same_model_refl]
    by (rule same_model_trans)
  then have "snd (check_predictive_anomalies fit predict data (stored data ?s)) = Inr pa"
    using assms(3) same_model_check_predictive(2) by metis
  then show ?thesis
    unfolding run_body_success [OF assms(1,2)]
    by (simp add: split_beta update_status_file_def)
qed

subsection \<open>The texts of the alerts\<close>

lemma str_contains_prefix: "str_contains p (p @ s)"
proof (cases "p @ s")
  case Nil
  then show ?thesis by simp
next
  case (Cons a list)
  have "take (length p) (p @ s) = p" by simp
  then have "take (length p) (a # list) = p" by (simp only: Cons)
  then show ?thesis by (simp only: Cons str_contains.simps) simp
qed

lemma str_contains_skip:
  "c \<notin> set pre \<Longrightarrow> str_contains (c # p) (pre @ s) = str_contains (c # p) s"
  by (induction pre) auto

lemma digit_char_digit: "d < 10 \<Longrightarrow> digit_char d \<in> set ''0123456789''"
  unfolding digit_char_def by (rule nth_mem) simp

lemma set_str_nat: "set (str_nat n) \<subseteq> set ''0123456789''"
proof (induction n rule: str_nat.induct)
  case (1 n)
  show ?case
  proof (cases "n < 10")
    case True
    then show ?thesis
      using digit_char_digit [of n] by (subst str_nat.simps) simp
  next
    case False
    then show ?thesis
      using 1 digit_char_digit [of "n mod 10"] by (subst str_nat.simps) simp
  qed
qed

lemma H_notin_str_nat: "CHR ''H'' \<notin> set (str_nat n)"
  using set_str_nat [of n] by auto

lemma H_notin_fmt_1f: "CHR ''H'' \<notin> set (fmt_1f x)"
  by (simp add: fmt_1f_def Let_def H_notin_str_nat)

lemma degree_not_H: "degree \<noteq> CHR ''H''"
  by (simp add: degree_def)

lemma hard_failure_alert_contains:
  "str_contains ''Hard Failure'' (hard_failure_alert data)"
  using str_contains_prefix [of "''Hard Failure''" "'' Alert: Printer in error state at '' @ timestamp data"]
  by (simp add: hard_failure_alert_def)

lemma filament_jam_alert_contains:
  "str_contains ''Hard Failure'' (filament_jam_alert data)
     = str_contains ''Hard Failure'' (timestamp data)"
  unfolding filament_jam_alert_def by (rule str_contains_skip) simp

lemma predictive_alert_contains:
  "str_contains ''Hard Failure'' (predictive_alert data)
     = str_contains ''Hard Failure'' (timestamp data)"
proof -
  let ?pre = "''Predictive Alert: Potential Overheating Detected! Temp: ''
                @ fmt_1f (nozzle_temp data) @ [degree] @ ''C at ''"
  have "CHR ''H'' \<notin> set ?pre"
    using H_notin_fmt_1f [of "nozzle_temp data"] degree_not_H by simp
  then have "str_contains ''Hard Failure'' (?pre @ timestamp data)
               = str_contains ''Hard Failure'' (timestamp data)"
    by (rule str_contains_skip)
  then show ?thesis by (simp add: predictive_alert_def)
qed

lemma hard_failure_in_alerts:
  assumes "\<not> str_contains ''Hard Failure'' (timestamp data)"
    and "pa = [] \<or> pa = [predictive_alert data]"
  shows "list_ex (str_contains ''Hard Failure'') (immediate_alerts data @ pa)
           = (printer_status data = ''error'')"
  using assms
  by (auto simp: immediate_alerts_def hard_failure_alert_contains filament_jam_alert_contains
        predictive_alert_contains)

section \<open>The claims\<close>

subsection \<open>The one-time training\<close>



subsection \<open>The verdict of the anomaly check\<close>



text \<open>
  C7. While fewer than 30 readings have been observed in total, the current one included,
  the anomaly check returns no alert and the model stays untrained, whatever the
  temperature. In the loop the published alerts are then the immediate ones alone.
\<close>

theorem no_alert_below_thirty:
  "(length ds + 1 < 30 \<longrightarrow>
      snd (check_predictive_anomalies fit predict data
             (feed fit predict ds (init_service db sf lg))) = Inr []
      \<and> \<not> model_trained (fst (check_predictive_anomalies fit predict data
             (feed fit predict ds (init_service db sf lg)))))
   \<and> (length (accepted inps) + 1 < 30 \<and> response inp = Json (Some data) \<and> db_ok inp \<longrightarrow>
        map_option active_alerts (status_file (fst (run_body fit predict inp
            (run fit predict inps (init_service db sf lg)))))
          = Some (immediate_alerts data))"
proof -
  have a: "snd (check_predictive_anomalies fit predict data
             (feed fit predict xs (init_service db sf lg))) = Inr []
      \<and> \<not> model_trained (fst (check_predictive_anomalies fit predict data
             (feed fit predict xs (init_service db sf lg))))"
    if "length xs + 1 < 30" for xs
    using that feed_init [of fit predict xs db sf lg]
      length_append_feed_init [of "nozzle_temp data" fit predict xs db sf lg]
    by (auto simp: check_predictive_anomalies_def Let_def needs_training_def)
  have b: "map_option active_alerts (status_file (fst (run_body fit predict inp
            (run fit predict inps (init_service db sf lg)))))
          = Some (immediate_alerts data)"
    if "length (accepted inps) + 1 < 30" and "response inp = Json (Some data)" and "db_ok inp"
    using run_body_alerts [OF that(2,3), of fit predict inps db sf lg "[]"] a [OF that(1)]
    by simp
  from a b show ?thesis by blast
qed

theorem no_alert_below_thirty_witness:
  "length (replicate 28 (sample 210.5)) + 1 < 30 \<and>
   snd (check_predictive_anomalies unit_fit vote_inlier (sample 300)
          (feed unit_fit vote_inlier (replicate 28 (sample 210.5)) (init_service [] None []))) = Inr []
   \<and> map_option active_alerts (status_file (fst (run_body unit_fit vote_inlier
          (ok_cycle (sample 300))
          (run unit_fit vote_inlier (replicate 28 (ok_cycle (sample 210.5)))
             (init_service [] None []))))) = Some []"
proof -
  have i: "immediate_alerts (sample 300) = []"
    by (simp add: sample_def immediate_alerts_def)
  show ?thesis
    using no_alert_below_thirty [of "replicate 28 (sample 210.5)" unit_fit vote_inlier "sample 300"
        "[]" None "[]" "replicate 28 (ok_cycle (sample 210.5))" "ok_cycle (sample 300)"] i
    by (simp add: accepted_replicate_ok) (simp add: ok_cycle_def)
qed

subsection \<open>The capacity of the buffer\<close>

text \<open>
  C8. The temperature buffer never holds more than 50 values: in every state the loop
  reaches from the initial state, after every sequence of readings fed to the anomaly
  check, and after one check from any state within the bound. After a sequence of
  readings the buffer holds the last 50 of them, in the loop the last 50 of the observed
  ones, and a check on a full buffer drops the oldest value and appends the new one.
\<close>

theorem buffer_never_exceeds_capacity:
  "length (temp_buffer (run fit predict inps (init_service db sf lg))) \<le> 50
   \<and> temp_buffer (run fit predict inps (init_service db sf lg))
       = drop (length (accepted inps) - 50) (map nozzle_temp (accepted inps))
   \<and> length (temp_buffer (feed fit predict ds (init_service db sf lg))) \<le> 50
   \<and> temp_buffer (feed fit predict ds (init_service db sf lg))
       = drop (length ds - 50) (map nozzle_temp ds)
   \<and> (length (temp_buffer s) \<le> 50 \<longrightarrow>
        length (temp_buffer (fst (check_predictive_anomalies fit predict data s))) \<le> 50)
   \<and> (length (temp_buffer s) = 50 \<longrightarrow>
        temp_buffer (fst (check_predictive_anomalies fit predict data s))
          = tl (temp_buffer s) @ [nozzle_temp data])"
proof -
  have a: "length (temp_buffer (run fit predict inps (init_service db sf lg))) \<le> 50"
    by (rule length_buffer_run) (simp add: init_service_def)
  have a': "temp_buffer (run fit predict inps (init_service db sf lg))
       = drop (length (accepted inps) - 50) (map nozzle_temp (accepted inps))"
    using run_init [of fit predict inps db sf lg] feed_init [of fit predict "accepted inps" db sf lg]
    by (simp add: same_model_def)
  have b: "length (temp_buffer (feed fit predict ds (init_service db sf lg))) \<le> 50"
    by (simp add: length_buffer_feed_init)
  have c: "temp_buffer (feed fit predict ds (init_service db sf lg))
       = drop (length ds - 50) (map nozzle_temp ds)"
    using feed_init [of fit predict ds db sf lg] by simp
  have d: "length (temp_buffer s) \<le> 50 \<longrightarrow>
        length (temp_buffer (fst (check_predictive_anomalies fit predict data s))) \<le> 50"
    by (simp add: temp_buffer_check_predictive length_deque_append)
  have e: "length (temp_buffer s) = 50 \<longrightarrow>
        temp_buffer (fst (check_predictive_anomalies fit predict data s))
          = tl (temp_buffer s) @ [nozzle_temp data]"
    by (cases "temp_buffer s") (auto simp: temp_buffer_check_predictive deque_append_def Let_def)
  from a a' b c d e show ?thesis by blast
qed

theorem buffer_never_exceeds_capacity_witness:
  "length (replicate 50 (210.5::real)) = 50 \<and>
   temp_buffer (fst (check_predictive_anomalies unit_fit vote_inlier (sample 230)
      ((init_service [] None []) \<lparr>temp_buffer := replicate 50 210.5\<rparr>)))
     = replicate 49 210.5 @ [230]
   \<and> length (temp_buffer (run unit_fit vote_inlier (replicate 60 (ok_cycle (sample 210.5)))
        (init_service [] None []))) = 50"
proof -
  have t: "tl (replicate 50 x) = replicate 49 x" for x :: real
    by (simp add: numeral_eq_Suc)
  have n: "nozzle_temp (sample 230) = 230"
    by (simp add: sample_def)
  show ?thesis
    using buffer_never_exceeds_capacity [of unit_fit vote_inlier
        "replicate 60 (ok_cycle (sample 210.5))" "[]" None "[]" "[]"
        "(init_service [] None []) \<lparr>temp_buffer := replicate 50 210.5\<rparr>" "sample 230"] t n
    by (simp add: accepted_replicate_ok)
qed

subsection \<open>Failures of the request and of the store\<close>

text \<open>
  C9. When the request fails (a \<^verbatim>\<open>RequestException\<close>, another exception out of the
  decoding, or the body \<^verbatim>\<open>null\<close>), the cycle leaves the whole state as it was, the buffer,
  the flag, the forest and the table included, and the loop goes on with the next input
  from that state.
\<close>

theorem fetch_failure_skips_cycle:
  assumes "response inp = RequestException \<or> response inp = OtherException
           \<or> response inp = Json None"
  shows "fst (run_body fit predict inp s) = s
       \<and> run fit predict (inp # inps) s = run fit predict inps s"
proof -
  have "fst (run_body fit predict inp s) = s"
    by (rule run_body_skip) (use assms in blast)
  then show ?thesis by simp
qed

theorem fetch_failure_skips_cycle_witness:
  "response timeout_cycle = RequestException
   \<and> fst (run_body unit_fit vote_inlier timeout_cycle (init_service [sample 210.5] None []))
       = init_service [sample 210.5] None []
   \<and> run unit_fit vote_inlier [timeout_cycle, ok_cycle (sample 211)] (init_service [sample 210.5] None [])
       = run unit_fit vote_inlier [ok_cycle (sample 211)] (init_service [sample 210.5] None [])"
  using fetch_failure_skips_cycle [of timeout_cycle unit_fit vote_inlier
      "init_service [sample 210.5] None []" "[ok_cycle (sample 211)]"]
  by (simp add: timeout_cycle_def)

text \<open>
  The claim C2 wants a cycle whose insert fails to go on to detection, classification
  and publishing. In the initial state, with the simulator's error reading and the
  database down, the cycle leaves the buffer empty, logs nothing and writes no status
  file; the same reading with the database up publishes the status \<^verbatim>\<open>error\<close>.
\<close>

theorem store_failure_counterexample:
  "temp_buffer (fst (run_body unit_fit vote_inlier (db_down_cycle error_reading)
      (init_service [] None []))) = []
   \<and> alerts_log (fst (run_body unit_fit vote_inlier (db_down_cycle error_reading)
      (init_service [] None []))) = []
   \<and> status_file (fst (run_body unit_fit vote_inlier (db_down_cycle error_reading)
      (init_service [] None []))) = None
   \<and> map_option system_status (status_file (fst (run_body unit_fit vote_inlier
      (ok_cycle error_reading) (init_service [] None [])))) = Some ''error''"
  by (simp add: run_body_def db_down_cycle_def ok_cycle_def poll_simulator_def store_data_def
      init_service_def error_reading_def check_immediate_failures_def
      check_predictive_anomalies_def deque_append_def update_status_file_def
      aggregate_status_def hard_failure_alert_def)

text \<open>
  C2, as the code has it. The exception of a failed insert is caught by the handler of
  the loop: the rest of the cycle is skipped, the state is the one before the cycle
  (nothing is observed, classified or published), and the loop goes on with the next
  input.
\<close>

theorem store_failure_skips_cycle:
  assumes "response inp = Json (Some data)" and "\<not> db_ok inp"
  shows "run_body fit predict inp s = (s, Some StoreError)
       \<and> run fit predict (inp # inps) s = run fit predict inps s"
  using assms by (simp add: run_body_def poll_simulator_def store_data_def)

theorem store_failure_skips_cycle_witness:
  "response (db_down_cycle error_reading) = Json (Some error_reading)
   \<and> \<not> db_ok (db_down_cycle error_reading)
   \<and> run_body unit_fit vote_inlier (db_down_cycle error_reading) (init_service [] None [])
       = (init_service [] None [], Some StoreError)"
  using store_failure_skips_cycle [of "db_down_cycle error_reading" error_reading
      unit_fit vote_inlier "init_service [] None []" "[]"]
  by (simp add: db_down_cycle_def)

subsection \<open>No validation of the temperature\<close>

text \<open>
  The claim C4 wants an out-of-range temperature kept out of the buffer. A reading of
  -1000 degrees, below absolute zero, is appended to it like any other.
\<close>

theorem out_of_range_counterexample:
  "temp_buffer (fst (run_body unit_fit vote_inlier (ok_cycle (sample (- 1000)))
      (init_service [] None []))) = [- 1000]"
  by (simp add: run_body_def ok_cycle_def poll_simulator_def store_data_def
      init_service_def sample_def check_immediate_failures_def
      check_predictive_anomalies_def deque_append_def update_status_file_def)

text \<open>
  C4, as the code has it. Every reading that is fetched and stored is appended to the
  table, and its nozzle temperature, whatever the value, is appended to the buffer, of
  which it is the newest element afterwards.
\<close>

theorem temperature_not_validated:
  assumes "response inp = Json (Some data)" and "db_ok inp"
  shows "sensor_data (fst (run_body fit predict inp s)) = sensor_data s @ [data]
       \<and> temp_buffer (fst (run_body fit predict inp s))
           = deque_append 50 (nozzle_temp data) (temp_buffer s)
       \<and> last (temp_buffer (fst (run_body fit predict inp s))) = nozzle_temp data"
  using assms by (simp add: run_body_fields last_deque_append)

theorem temperature_not_validated_witness:
  "response (ok_cycle (sample (- 1000))) = Json (Some (sample (- 1000)))
   \<and> db_ok (ok_cycle (sample (- 1000)))
   \<and> sensor_data (fst (run_body unit_fit vote_inlier (ok_cycle (sample (- 1000)))
        (init_service [] None []))) = [sample (- 1000)]
   \<and> last (temp_buffer (fst (run_body unit_fit vote_inlier (ok_cycle (sample (- 1000)))
        (init_service [] None [])))) = - 1000"
proof -
  have h1: "response (ok_cycle (sample (- 1000))) = Json (Some (sample (- 1000)))"
    and h2: "db_ok (ok_cycle (sample (- 1000)))"
    by (simp_all add: ok_cycle_def)
  have h3: "nozzle_temp (sample (- 1000)) = - 1000"
    by (simp add: sample_def)
  show ?thesis
    using temperature_not_validated [OF h1 h2, of unit_fit vote_inlier "init_service [] None []"]
      h1 h2 h3
    by (simp add: init_service_def deque_append_def)
qed

subsection \<open>The published snapshot\<close>

text \<open>
  The claim C1 wants the status \<^verbatim>\<open>error\<close> for a jammed filament on a printing printer.
  In the initial state that reading publishes the filament jam alert alone, and the
  status \<^verbatim>\<open>warning\<close>.
\<close>

theorem filament_jam_counterexample:
  "filament_status jam_reading = ''jammed'' \<and> printer_status jam_reading = ''printing''
   \<and> map_option active_alerts (status_file (fst (run_body unit_fit vote_inlier
        (ok_cycle jam_reading) (init_service [] None []))))
      = Some [''Filament Jam Alert: Filament is jammed at 2025-01-01T00:00:00'']
   \<and> map_option system_status (status_file (fst (run_body unit_fit vote_inlier
        (ok_cycle jam_reading) (init_service [] None []))))
      = Some ''warning''"
  by (simp add: run_body_def ok_cycle_def poll_simulator_def store_data_def
      init_service_def jam_reading_def check_immediate_failures_def
      check_predictive_anomalies_def deque_append_def update_status_file_def
      aggregate_status_def filament_jam_alert_def)

text \<open>
  C1, as the code has it. A cycle that fetches and stores a reading, in any state the
  loop reaches, publishes a snapshot whose status is \<^verbatim>\<open>error\<close> exactly when one of its
  alert texts contains \<^verbatim>\<open>Hard Failure\<close>, \<^verbatim>\<open>warning\<close> exactly when none does and there is an
  alert, \<^verbatim>\<open>normal\<close> exactly when there is no alert. A printer in the error state gets the
  hard failure alert and the status \<^verbatim>\<open>error\<close>; a jammed filament gets its alert. When the
  time stamp of the reading does not itself contain \<^verbatim>\<open>Hard Failure\<close>, the status is
  \<^verbatim>\<open>error\<close> only for a printer in the error state, so a jammed filament on a printer
  that is not in the error state gives \<^verbatim>\<open>warning\<close>.
\<close>

theorem status_error_iff_hard_failure:
  assumes "response inp = Json (Some data)" and "db_ok inp"
  shows "\<exists>snap.
      status_file (fst (run_body fit predict inp (run fit predict inps (init_service db sf lg))))
        = Some snap
    \<and> (system_status snap = ''error''
          \<longleftrightarrow> list_ex (str_contains ''Hard Failure'') (active_alerts snap))
    \<and> (system_status snap = ''warning''
          \<longleftrightarrow> \<not> list_ex (str_contains ''Hard Failure'') (active_alerts snap)
              \<and> active_alerts snap \<noteq> [])
    \<and> (system_status snap = ''normal'' \<longleftrightarrow> active_alerts snap = [])
    \<and> (printer_status data = ''error''
          \<longrightarrow> hard_failure_alert data \<in> set (active_alerts snap) \<and> system_status snap = ''error'')
    \<and> (filament_status data = ''jammed'' \<longrightarrow> filament_jam_alert data \<in> set (active_alerts snap))
    \<and> (\<not> str_contains ''Hard Failure'' (timestamp data) \<longrightarrow>
          system_status snap =
            (if printer_status data = ''error'' then ''error''
             else if active_alerts snap \<noteq> [] then ''warning'' else ''normal''))
    \<and> (\<not> str_contains ''Hard Failure'' (timestamp data) \<and> filament_status data = ''jammed''
          \<and> printer_status data \<noteq> ''error'' \<longrightarrow> system_status snap = ''warning'')"
proof -
  let ?s = "run fit predict inps (init_service db sf lg)"
  have "fitted_when_trained ?s"
    by (rule fitted_run) (rule fitted_init)
  from run_body_publishes [OF assms this, of fit predict]
  obtain pa where pa: "pa = [] \<or> pa = [predictive_alert data]"
    and st: "status_file (fst (run_body fit predict inp ?s)) =
         Some \<lparr>current_data = data, active_alerts = immediate_alerts data @ pa,
               last_updated = now inp,
               system_status = aggregate_status (immediate_alerts data @ pa)\<rparr>"
    by blast
  let ?al = "immediate_alerts data @ pa"
  have agg: "aggregate_status ?al = ''error'' \<longleftrightarrow> list_ex (str_contains ''Hard Failure'') ?al"
    "aggregate_status ?al = ''warning'' \<longleftrightarrow>
       \<not> list_ex (str_contains ''Hard Failure'') ?al \<and> ?al \<noteq> []"
    "aggregate_status ?al = ''normal'' \<longleftrightarrow> ?al = []"
    by (auto simp: aggregate_status_def)
  have hf: "printer_status data = ''error'' \<longrightarrow>
      hard_failure_alert data \<in> set ?al \<and> aggregate_status ?al = ''error''"
    by (auto simp: aggregate_status_def immediate_alerts_def list_ex_iff
          hard_failure_alert_contains)
  have jam: "filament_status data = ''jammed'' \<longrightarrow> filament_jam_alert data \<in> set ?al"
    by (simp add: immediate_alerts_def)
  have ts: "\<not> str_contains ''Hard Failure'' (timestamp data) \<longrightarrow>
      aggregate_status ?al =
        (if printer_status data = ''error'' then ''error''
         else if ?al \<noteq> [] then ''warning'' else ''normal'')"
    using hard_failure_in_alerts [OF _ pa] by (simp add: aggregate_status_def)
  have d: "\<not> str_contains ''Hard Failure'' (timestamp data) \<and> filament_status data = ''jammed''
          \<and> printer_status data \<noteq> ''error'' \<longrightarrow> aggregate_status ?al = ''warning''"
    using ts jam by auto
  show ?thesis
    unfolding st using agg hf jam ts d by simp
qed

theorem status_error_iff_hard_failure_witness:
  "response (ok_cycle jam_reading) = Json (Some jam_reading)
   \<and> db_ok (ok_cycle jam_reading)
   \<and> \<not> str_contains ''Hard Failure'' (timestamp jam_reading)
   \<and> filament_status jam_reading = ''jammed''
   \<and> printer_status jam_reading \<noteq> ''error''
   \<and> map_option system_status (status_file (fst (run_body unit_fit vote_inlier
        (ok_cycle jam_reading) (run unit_fit vote_inlier [] (init_service [] None [])))))
      = Some ''warning''
   \<and> printer_status error_reading = ''error''
   \<and> map_option system_status (status_file (fst (run_body unit_fit vote_inlier
        (ok_cycle error_reading) (run unit_fit vote_inlier [] (init_service [] None [])))))
      = Some ''error''"
proof -
  have h1: "response (ok_cycle jam_reading) = Json (Some jam_reading)"
    and h2: "db_ok (ok_cycle jam_reading)"
    and h3: "\<not> str_contains ''Hard Failure'' (timestamp jam_reading)"
    and h4: "filament_status jam_reading = ''jammed''"
    and h5: "printer_status jam_reading \<noteq> ''error''"
    by (simp_all add: ok_cycle_def jam_reading_def)
  have e1: "response (ok_cycle error_reading) = Json (Some error_reading)"
    and e2: "db_ok (ok_cycle error_reading)"
    and e3: "printer_status error_reading = ''error''"
    by (simp_all add: ok_cycle_def error_reading_def)
  have a: "map_option system_status (status_file (fst (run_body unit_fit vote_inlier
        (ok_cycle jam_reading) (run unit_fit vote_inlier [] (init_service [] None [])))))
      = Some ''warning''"
    using status_error_iff_hard_failure [OF h1 h2, of unit_fit vote_inlier "[]" "[]" None "[]"]
      h3 h4 h5 by auto
  have b: "map_option system_status (status_file (fst (run_body unit_fit vote_inlier
        (ok_cycle error_reading) (run unit_fit vote_inlier [] (init_service [] None [])))))
      = Some ''error''"
    using status_error_iff_hard_failure [OF e1 e2, of unit_fit vote_inlier "[]" "[]" None "[]"]
      e3 by auto
  from h1 h2 h3 h4 h5 a e3 b show ?thesis by blast
qed

text \<open>
  C10. A cycle that fetches and stores a reading, in any state the loop reaches,
  publishes as active alerts the hard failure alert if the printer is in the error state,
  then the filament jam alert if the filament is jammed, then what the anomaly check
  returned, which is nothing or the predictive alert alone.
\<close>

theorem alerts_order:
  assumes "response inp = Json (Some data)" and "db_ok inp"
  shows "\<exists>pa. (pa = [] \<or> pa = [predictive_alert data])
    \<and> map_option active_alerts
        (status_file (fst (run_body fit predict inp (run fit predict inps (init_service db sf lg)))))
        = Some ((if printer_status data = ''error'' then [hard_failure_alert data] else [])
                @ (if filament_status data = ''jammed'' then [filament_jam_alert data] else [])
                @ pa)"
proof -
  let ?s = "run fit predict inps (init_service db sf lg)"
  have "fitted_when_trained ?s"
    by (rule fitted_run) (rule fitted_init)
  from run_body_publishes [OF assms this, of fit predict]
  show ?thesis by (auto simp: immediate_alerts_def)
qed

theorem alerts_order_witness:
  "response (ok_cycle error_reading) = Json (Some error_reading)
   \<and> db_ok (ok_cycle error_reading)
   \<and> map_option active_alerts (status_file (fst (run_body unit_fit vote_inlier
        (ok_cycle error_reading)
        (run unit_fit vote_inlier (replicate 29 (ok_cycle (sample 210.5)))
           (init_service [] None [])))))
      = Some [hard_failure_alert error_reading, filament_jam_alert error_reading,
              predictive_alert error_reading]"
proof -
  have h1: "response (ok_cycle error_reading) = Json (Some error_reading)"
    and h2: "db_ok (ok_cycle error_reading)"
    by (simp_all add: ok_cycle_def)
  have "map_option active_alerts (status_file (fst (run_body unit_fit vote_inlier
        (ok_cycle error_reading)
        (run unit_fit vote_inlier (replicate 29 (ok_cycle (sample 210.5)))
           (init_service [] None [])))))
      \<noteq> Some [hard_failure_alert error_reading, filament_jam_alert error_reading]"
    by code_simp
  with alerts_order [OF h1 h2, of unit_fit vote_inlier "replicate 29 (ok_cycle (sample 210.5))"
      "[]" None "[]"] h1 h2
  show ?thesis by (auto simp: error_reading_def)
qed

subsection \<open>Publishing in place\<close>




end
